theory Spec2Isabelle
  imports Main "HOL-Library.Sublist"
begin

section \<open>Python string primitives used by app.py\<close>

text \<open>
  A Python \<open>str\<close> is modelled as a \<open>string\<close> (a list of characters). Isabelle's
  \<open>char\<close> has 256 values, so the model covers the strings whose code points are below
  256; the line boundaries and white space listed below are the ones Python knows in
  that range.
\<close>

definition is_linebreak :: "char \<Rightarrow> bool" where
  "is_linebreak c \<longleftrightarrow> c \<in> set [CHR 0x0A, CHR 0x0B, CHR 0x0C, CHR 0x0D,
                                  CHR 0x1C, CHR 0x1D, CHR 0x1E, CHR 0x85]"

definition is_space :: "char \<Rightarrow> bool" where
  "is_space c \<longleftrightarrow> c \<in> set [CHR 0x09, CHR 0x0A, CHR 0x0B, CHR 0x0C, CHR 0x0D,
                             CHR 0x1C, CHR 0x1D, CHR 0x1E, CHR 0x1F, CHR 0x20,
                             CHR 0x85, CHR 0xA0]"

text \<open>
  \<open>str.splitlines()\<close>: the text is cut at every line boundary, \<open>"\r\n"\<close> counting as
  one; the boundaries are dropped, and a boundary at the very end opens no further line.
  The first argument is the line being read, reversed.
\<close>

fun splitlines_from :: "string \<Rightarrow> string \<Rightarrow> string list" where
  "splitlines_from cur [] = (if cur = [] then [] else [rev cur])"
| "splitlines_from cur (c # cs) =
     (if c = CHR 0x0D then
        (case cs of
           [] \<Rightarrow> [rev cur]
         | d # ds \<Rightarrow> if d = CHR 0x0A then rev cur # splitlines_from [] ds
                     else rev cur # splitlines_from [] cs)
      else if is_linebreak c then rev cur # splitlines_from [] cs
      else splitlines_from (c # cur) cs)"

definition splitlines :: "string \<Rightarrow> string list" where
  "splitlines s = splitlines_from [] s"

text \<open>\<open>str.strip()\<close>: white space is removed at both ends.\<close>

definition strip :: "string \<Rightarrow> string" where
  "strip s = rev (dropWhile is_space (rev (dropWhile is_space s)))"

text \<open>
  \<open>s.split(sep, 1)\<close> for a one-character separator: one part when \<open>sep\<close> does not
  occur, otherwise the text before the first occurrence and the text after it.
\<close>

definition split_once :: "char \<Rightarrow> string \<Rightarrow> string list" where
  "split_once sep s =
     (case dropWhile (\<lambda>c. c \<noteq> sep) s of
        [] \<Rightarrow> [s]
      | _ # rest \<Rightarrow> [takeWhile (\<lambda>c. c \<noteq> sep) s, rest])"

text \<open>\<open>needle in hay\<close> on strings: a left-to-right search for the needle.\<close>

fun str_contains :: "string \<Rightarrow> string \<Rightarrow> bool" where
  "str_contains needle [] = (needle = [])"
| "str_contains needle (c # cs) =
     (prefix needle (c # cs) \<or> str_contains needle cs)"

text \<open>\<open>sep.join(parts)\<close>.\<close>

fun join :: "string \<Rightarrow> string list \<Rightarrow> string" where
  "join sep [] = []"
| "join sep [p] = p"
| "join sep (p # q # ps) = p @ sep @ join sep (q # ps)"

section \<open>The link audit of the generation loop\<close>

text \<open>
  The loop of app.py that fills \<open>approved_internal_urls_full\<close> (and its twin for the
  external list): every line with some non-blank text and a colon appends the stripped
  first part of \<open>line.split(":", 1)\<close>.
\<close>

definition approved_urls_step :: "string list \<Rightarrow> string \<Rightarrow> string list" where
  "approved_urls_step acc line =
     (if strip line \<noteq> [] \<and> CHR '':'' \<in> set line
      then acc @ [strip (hd (split_once (CHR '':'') line))]
      else acc)"

definition approved_urls_full :: "string \<Rightarrow> string list" where
  "approved_urls_full links_text = foldl approved_urls_step [] (splitlines links_text)"

text \<open>
  \<open>" | ".join([url for url in approved if url in generated_val])\<close>, the value stored
  under \<open>found_internal_links_in_html\<close> and \<open>found_external_links_in_html\<close>.
\<close>

definition found_links_in_html :: "string \<Rightarrow> string \<Rightarrow> string" where
  "found_links_in_html links_text generated_val =
     join '' | '' (filter (\<lambda>url. str_contains url generated_val)
                         (approved_urls_full links_text))"

text \<open>Both derived fields of one output row, internal first.\<close>

definition audit_links :: "string \<Rightarrow> string \<Rightarrow> string \<Rightarrow> string \<times> string" where
  "audit_links internal_text external_text generated_val =
     (found_links_in_html internal_text generated_val,
      found_links_in_html external_text generated_val)"


section \<open>The prompt template substitution\<close>

text \<open>
  \<open>s.replace(old, new)\<close>: every occurrence of \<open>old\<close>, found from the left and never
  overlapping the one before, is replaced; the text put in is not searched again. With
  an empty \<open>old\<close> Python puts \<open>new\<close> before every character and at the end.
\<close>

function replace_all :: "string \<Rightarrow> string \<Rightarrow> string \<Rightarrow> string" where
  "replace_all old new [] = (if old = [] then new else [])"
| "replace_all old new (c # cs) =
     (if old = [] then new @ concat (map (\<lambda>x. x # new) (c # cs))
      else if prefix old (c # cs)
        then new @ replace_all old new (drop (length old) (c # cs))
        else c # replace_all old new cs)"
  by pat_completeness auto
termination
  by (relation "measure (\<lambda>(old, new, s). length s)") auto

text \<open>\<open>str(n)\<close> for a Python integer: the decimal digits, with a minus sign below zero.\<close>

definition digit_char :: "nat \<Rightarrow> char" where
  "digit_char d = ''0123456789'' ! d"

function str_nat :: "nat \<Rightarrow> string" where
  "str_nat n = (if n < 10 then [digit_char n] else str_nat (n div 10) @ [digit_char (n mod 10)])"
  by pat_completeness auto
termination
  by (relation "measure id") auto

declare str_nat.simps [simp del]

definition str_int :: "int \<Rightarrow> string" where
  "str_int i = (if i < 0 then CHR ''-'' # str_nat (nat (- i)) else str_nat (nat i))"

text \<open>
  The session values the generation block reads besides the topic table and the prompt
  templates, at the types the widgets give them: text areas hold \<open>str\<close>, the two number
  inputs hold \<open>int\<close>.
\<close>

record settings =
  brand_guidelines :: string
  seo_summary :: string
  approved_internal_links :: string
  approved_external_links :: string
  target_internal_links :: int
  target_external_links :: int

text \<open>
  The nine \<open>replace\<close> statements that build \<open>fmt_prompt\<close> from \<open>prompt_template\<close>, in
  the order of the source; each works on the result of the one before.
\<close>

definition fmt_prompt ::
  "string \<Rightarrow> string \<Rightarrow> string \<Rightarrow> string \<Rightarrow> 'a settings_scheme \<Rightarrow> string" where
  "fmt_prompt prompt_template topic_input_val primary_keyword_val secondary_keywords_val st =
     (let p = prompt_template;
          p = replace_all ''[TOPIC_INPUT]'' topic_input_val p;
          p = replace_all ''[PRIMARY_KEYWORD]'' primary_keyword_val p;
          p = replace_all ''[SECONDARY_KEYWORDS_LIST]'' secondary_keywords_val p;
          p = replace_all ''[WORKSTREAM_BRAND_GUIDELINES]'' (brand_guidelines st) p;
          p = replace_all ''[SEO_BEST_PRACTICES_SUMMARY]'' (seo_summary st) p;
          p = replace_all ''[APPROVED_INTERNAL_LINKS_TEXT]'' (approved_internal_links st) p;
          p = replace_all ''[APPROVED_EXTERNAL_LINKS_TEXT]'' (approved_external_links st) p;
          p = replace_all ''[TARGET_NUMBER_INTERNAL_LINKS]'' (str_int (target_internal_links st)) p;
          p = replace_all ''[TARGET_NUMBER_EXTERNAL_LINKS]'' (str_int (target_external_links st)) p
      in p)"

text \<open>
  The same nine pairs as a list, token name first, in the order of the statements: the
  generation context of one (topic, field) pair. The token of a name is the name in
  square brackets.
\<close>

definition token :: "string \<Rightarrow> string" where
  "token name = CHR ''['' # name @ '']''"

definition generation_context ::
  "string \<Rightarrow> string \<Rightarrow> string \<Rightarrow> 'a settings_scheme \<Rightarrow> (string \<times> string) list" where
  "generation_context topic_input_val primary_keyword_val secondary_keywords_val st =
     [(''TOPIC_INPUT'', topic_input_val),
      (''PRIMARY_KEYWORD'', primary_keyword_val),
      (''SECONDARY_KEYWORDS_LIST'', secondary_keywords_val),
      (''WORKSTREAM_BRAND_GUIDELINES'', brand_guidelines st),
      (''SEO_BEST_PRACTICES_SUMMARY'', seo_summary st),
      (''APPROVED_INTERNAL_LINKS_TEXT'', approved_internal_links st),
      (''APPROVED_EXTERNAL_LINKS_TEXT'', approved_external_links st),
      (''TARGET_NUMBER_INTERNAL_LINKS'', str_int (target_internal_links st)),
      (''TARGET_NUMBER_EXTERNAL_LINKS'', str_int (target_external_links st))]"

definition token_names :: "string list" where
  "token_names = [''TOPIC_INPUT'', ''PRIMARY_KEYWORD'', ''SECONDARY_KEYWORDS_LIST'',
     ''WORKSTREAM_BRAND_GUIDELINES'', ''SEO_BEST_PRACTICES_SUMMARY'',
     ''APPROVED_INTERNAL_LINKS_TEXT'', ''APPROVED_EXTERNAL_LINKS_TEXT'',
     ''TARGET_NUMBER_INTERNAL_LINKS'', ''TARGET_NUMBER_EXTERNAL_LINKS'']"

text \<open>
  Templates read as a sequence of pieces: plain text without an opening bracket, and
  bracketed names. A template has this shape exactly when each \<open>[\<close> in it is closed by
  a \<open>]\<close> before the next \<open>[\<close>.
\<close>

datatype piece = Text string | Group string

fun render_piece :: "piece \<Rightarrow> string" where
  "render_piece (Text t) = t"
| "render_piece (Group name) = token name"

definition render :: "piece list \<Rightarrow> string" where
  "render ps = concat (map render_piece ps)"

fun flat_piece :: "piece \<Rightarrow> bool" where
  "flat_piece (Text t) \<longleftrightarrow> CHR ''['' \<notin> set t"
| "flat_piece (Group name) \<longleftrightarrow> CHR ''['' \<notin> set name \<and> CHR '']'' \<notin> set name"

text \<open>
  Substituting in one pass: a bracketed name that the context knows becomes its value,
  every other piece stays.
\<close>

fun substitute_piece :: "(string \<times> string) list \<Rightarrow> piece \<Rightarrow> piece" where
  "substitute_piece ctx (Text t) = Text t"
| "substitute_piece ctx (Group name) =
     (case map_of ctx name of Some v \<Rightarrow> Text v | None \<Rightarrow> Group name)"

text \<open>One \<open>replace\<close> statement seen on pieces and on the text.\<close>

definition replace_piece :: "string \<Rightarrow> string \<Rightarrow> piece \<Rightarrow> piece" where
  "replace_piece name v p = (if p = Group name then Text v else p)"

definition replace_pass :: "string \<Rightarrow> string \<times> string \<Rightarrow> string" where
  "replace_pass p nv = replace_all (token (fst nv)) (snd nv) p"

section \<open>The model call with retries: generate_content\<close>

text \<open>
  The three provider branches differ in the vendor call and in the message for an empty
  answer; the branch is chosen by searching the model name, in the order of the source.
\<close>

datatype provider = Gemini | OpenAI | Anthropic

definition select_provider :: "string \<Rightarrow> provider option" where
  "select_provider model_name =
     (if str_contains ''gemini'' model_name then Some Gemini
      else if str_contains ''gpt'' model_name then Some OpenAI
      else if str_contains ''claude'' model_name then Some Anthropic
      else None)"

text \<open>
  The three module-level credentials. \<open>not KEY\<close> holds for \<open>None\<close> and for the empty
  string.
\<close>

record api_keys =
  gemini_api_key :: "string option"
  openai_api_key :: "string option"
  anthropic_api_key :: "string option"

fun provider_key :: "api_keys \<Rightarrow> provider \<Rightarrow> string option" where
  "provider_key keys Gemini = gemini_api_key keys"
| "provider_key keys OpenAI = openai_api_key keys"
| "provider_key keys Anthropic = anthropic_api_key keys"

fun key_missing :: "string option \<Rightarrow> bool" where
  "key_missing None = True"
| "key_missing (Some k) = (k = [])"

text \<open>
  What the vendor library gives back for one call: it raises (the text is the rendered
  exception), or it returns a response. Of a response the code reads the generated text
  (absent when there is no candidate, choice or content block) and, for Gemini, the
  block reason of the prompt feedback (absent when there is no feedback).
\<close>

datatype response = Response (resp_text: "string option") (resp_block_reason: "string option")

datatype call_outcome = Raised (raised_detail: string) | Responded response

text \<open>
  The world outside one \<open>generate_content\<close> call: whether configuring the client raises,
  and the outcome of each vendor call, given the model name, the temperature, the prompt
  and the 0-based attempt number. The temperature is a float that the code only hands
  on; it is kept as an uninterpreted value of type \<open>'t\<close>.
\<close>

record 't backend =
  setup_fault :: "string option"
  invoke :: "string \<Rightarrow> 't \<Rightarrow> string \<Rightarrow> nat \<Rightarrow> call_outcome"

text \<open>
  The success test of each branch. Gemini accepts any text once a candidate has parts;
  the other two also need the text itself to be truthy, that is non-empty.
\<close>

fun usable_text :: "provider \<Rightarrow> response \<Rightarrow> string option" where
  "usable_text Gemini r = resp_text r"
| "usable_text OpenAI r =
     (case resp_text r of None \<Rightarrow> None | Some t \<Rightarrow> if t = [] then None else Some t)"
| "usable_text Anthropic r =
     (case resp_text r of None \<Rightarrow> None | Some t \<Rightarrow> if t = [] then None else Some t)"

text \<open>Every \<open>return\<close> statement of \<open>generate_content\<close>, with what it interpolates.\<close>

datatype gen_result =
    KeyMissing
  | Generated string
  | Blocked string
  | OpenAIEmpty
  | AnthropicEmpty
  | ApiCallFailed string
  | MaxRetries
  | SetupError string
  | UnsupportedProvider

fun result_text :: "gen_result \<Rightarrow> string" where
  "result_text KeyMissing = ''ERROR: API Key missing.''"
| "result_text (Generated t) = t"
| "result_text (Blocked reason) = ''ERROR: Blocked - '' @ reason"
| "result_text OpenAIEmpty = ''ERROR: OpenAI response empty after retries.''"
| "result_text AnthropicEmpty = ''ERROR: Anthropic response empty/invalid after retries.''"
| "result_text (ApiCallFailed e) = ''ERROR: API call failed - '' @ e"
| "result_text MaxRetries = ''ERROR: Max retries.''"
| "result_text (SetupError e) = ''ERROR: Setup - '' @ e"
| "result_text UnsupportedProvider = ''ERROR: Unsupported model provider.''"

text \<open>The result of the last attempt when the response was empty or blocked.\<close>

fun empty_result :: "provider \<Rightarrow> response \<Rightarrow> gen_result" where
  "empty_result Gemini r =
     Blocked (case resp_block_reason r of Some reason \<Rightarrow> reason | None \<Rightarrow> ''Unknown'')"
| "empty_result OpenAI r = OpenAIEmpty"
| "empty_result Anthropic r = AnthropicEmpty"

text \<open>
  What a call does besides returning: vendor calls (numbered from 1, as the log numbers
  them) and blocking sleeps (in seconds). The status messages written with \<open>st.write\<close>,
  \<open>st.warning\<close> and \<open>st.error\<close> are not modelled.
\<close>

datatype event = ApiCall nat | Sleep nat

fun is_api_call :: "event \<Rightarrow> bool" where
  "is_api_call (ApiCall i) = True"
| "is_api_call (Sleep d) = False"

definition api_calls :: "event list \<Rightarrow> nat" where
  "api_calls tr = length (filter is_api_call tr)"

definition sleeps :: "event list \<Rightarrow> event list" where
  "sleeps tr = filter (\<lambda>e. \<not> is_api_call e) tr"

text \<open>
  \<open>for attempt in range(retries)\<close> with its body, and the statement after the loop.
  \<open>retries\<close> is a Python integer; \<open>delay_seconds\<close> is a duration, taken as a natural
  number of seconds.
\<close>

function retry_loop ::
  "provider \<Rightarrow> (nat \<Rightarrow> call_outcome) \<Rightarrow> int \<Rightarrow> nat \<Rightarrow> nat \<Rightarrow> event list
     \<Rightarrow> gen_result \<times> event list" where
  "retry_loop p call retries delay_seconds attempt tr =
     (if int attempt < retries then
        (case call attempt of
           Responded r \<Rightarrow>
             (case usable_text p r of
                Some t \<Rightarrow> (Generated (strip t), tr @ [ApiCall (attempt + 1)])
              | None \<Rightarrow>
                  if int attempt < retries - 1
                  then retry_loop p call retries delay_seconds (attempt + 1)
                         (tr @ [ApiCall (attempt + 1), Sleep (delay_seconds * (attempt + 1))])
                  else (empty_result p r, tr @ [ApiCall (attempt + 1)]))
         | Raised e \<Rightarrow>
             if int attempt < retries - 1
             then retry_loop p call retries delay_seconds (attempt + 1)
                    (tr @ [ApiCall (attempt + 1), Sleep (delay_seconds * (attempt + 1))])
             else (ApiCallFailed e, tr @ [ApiCall (attempt + 1)]))
      else (MaxRetries, tr))"
  by pat_completeness auto
termination
  by (relation "measure (\<lambda>(p, call, retries, delay_seconds, attempt, tr).
        nat (retries - int attempt))") auto

declare retry_loop.simps [simp del]

definition generate_content ::
  "string \<Rightarrow> string \<Rightarrow> 't \<Rightarrow> int \<Rightarrow> nat \<Rightarrow> api_keys \<Rightarrow> 't backend
     \<Rightarrow> gen_result \<times> event list" where
  "generate_content prompt_text model_name temperature retries delay_seconds keys be =
     (case select_provider model_name of
        None \<Rightarrow> (UnsupportedProvider, [])
      | Some p \<Rightarrow>
          if key_missing (provider_key keys p) then (KeyMissing, [])
          else (case setup_fault be of
                  Some e \<Rightarrow> (SetupError e, [])
                | None \<Rightarrow>
                    retry_loop p (invoke be model_name temperature prompt_text)
                      retries delay_seconds 0 []))"

section \<open>Session values, dictionaries and the topic table\<close>

text \<open>
  The Python values that sit in table cells, in the output rows and in the saved
  configuration. A float that is not NaN is kept as mantissa and exponent and never
  computed with; a pandas DataFrame is its column names and its rows of cells.
\<close>

datatype pyval =
    PNone
  | PBool bool
  | PInt int
  | PFloat int int
  | PNaN
  | PStr string
  | PList "pyval list"
  | PDict "(string \<times> pyval) list"
  | PFrame "string list" "pyval list list"

text \<open>
  A \<open>dict\<close> with string keys is an association list in insertion order with distinct
  keys: \<open>d[k] = v\<close> overwrites in place or appends, \<open>d.get(k, default)\<close> reads.
\<close>

fun dict_set :: "string \<Rightarrow> 'v \<Rightarrow> (string \<times> 'v) list \<Rightarrow> (string \<times> 'v) list" where
  "dict_set k v [] = [(k, v)]"
| "dict_set k v ((k', v') # d) = (if k' = k then (k, v) # d else (k', v') # dict_set k v d)"

definition dict_get :: "(string \<times> 'v) list \<Rightarrow> string \<Rightarrow> 'v \<Rightarrow> 'v" where
  "dict_get d k dflt = (case map_of d k of Some v \<Rightarrow> v | None \<Rightarrow> dflt)"

text \<open>\<open>dict(zip(keys, values))\<close>: the pairs are stored one after the other.\<close>

definition dict_of_pairs :: "(string \<times> 'v) list \<Rightarrow> (string \<times> 'v) list" where
  "dict_of_pairs kvs = foldl (\<lambda>d kv. dict_set (fst kv) (snd kv) d) [] kvs"

text \<open>The string in a value, when the value is a string.\<close>

fun as_str :: "pyval \<Rightarrow> string option" where
  "as_str (PStr s) = Some s"
| "as_str v = None"

type_synonym dataframe = "string list \<times> pyval list list"

text \<open>\<open>df.empty\<close>: one of the two axes has length 0.\<close>

definition df_empty :: "dataframe \<Rightarrow> bool" where
  "df_empty df \<longleftrightarrow> fst df = [] \<or> snd df = []"

text \<open>\<open>df.head(1)\<close> and \<open>len(df)\<close>.\<close>

definition df_head1 :: "dataframe \<Rightarrow> dataframe" where
  "df_head1 df = (fst df, take 1 (snd df))"

definition df_len :: "dataframe \<Rightarrow> nat" where
  "df_len df = length (snd df)"

text \<open>\<open>df.to_dict(orient='records')\<close>: one dictionary per row, column name to cell.\<close>

definition to_records :: "dataframe \<Rightarrow> (string \<times> pyval) list list" where
  "to_records df = map (\<lambda>row. dict_of_pairs (zip (fst df) row)) (snd df)"





section \<open>The generation run\<close>

text \<open>
  What the generation block reads from \<open>st.session_state\<close>: the settings above, the
  selected model, the temperature, the topic table, the prompt templates (a dictionary
  from field name to template text) and the run mode set by the two buttons.
\<close>

record 't session = settings +
  model_name :: string
  llm_temperature :: 't
  topics_df :: dataframe
  editable_prompts :: "(string \<times> string) list"
  run_mode :: string

definition generated_fields :: "string list" where
  "generated_fields = [''page_title'', ''meta_description'', ''h1_tag'', ''subtitle'',
                       ''alt_text'', ''main_text_html'']"

text \<open>
  A cell of the topic table is whatever pandas holds there: a string, but also NaN for a
  blank cell of an uploaded file or a number for a numeric column. \<open>str.replace\<close> wants
  a string as its second argument and raises \<open>TypeError\<close> for anything else; nothing in
  the generation block catches it.
\<close>

datatype fault = TypeError

definition fmt_prompt_cells ::
  "string \<Rightarrow> pyval \<Rightarrow> pyval \<Rightarrow> pyval \<Rightarrow> 'a settings_scheme \<Rightarrow> fault + string" where
  "fmt_prompt_cells prompt_template topic_input_val primary_keyword_val secondary_keywords_val st =
     (case as_str topic_input_val of
        None \<Rightarrow> Inl TypeError
      | Some t \<Rightarrow>
          (case as_str primary_keyword_val of
             None \<Rightarrow> Inl TypeError
           | Some p \<Rightarrow>
               (case as_str secondary_keywords_val of
                  None \<Rightarrow> Inl TypeError
                | Some s \<Rightarrow> Inr (fmt_prompt prompt_template t p s st))))"

text \<open>
  The state threaded through the run: the output row being filled (or the rows finished
  so far), the number of \<open>generate_content\<close> calls made, and the events of those calls.
  The \<open>n\<close>-th call of the run meets the backend \<open>world n\<close>. A fault keeps the counters
  it had when it was raised.
\<close>

type_synonym output_row = "(string \<times> pyval) list"

text \<open>
  The body of \<open>for field_to_gen in [...]\<close>. \<open>generate_content\<close> is called with its
  defaults, three attempts and five seconds. Its result is always a string, so the
  \<open>isinstance(generated_val, str)\<close> half of the audit guard is always true.
\<close>

fun gen_field ::
  "'t session \<Rightarrow> api_keys \<Rightarrow> (nat \<Rightarrow> 't backend) \<Rightarrow> pyval \<Rightarrow> pyval \<Rightarrow> pyval \<Rightarrow> string
     \<Rightarrow> output_row \<times> nat \<times> event list
     \<Rightarrow> (fault \<times> nat \<times> event list) + (output_row \<times> nat \<times> event list)" where
  "gen_field st keys world topic_input_val primary_keyword_val secondary_keywords_val
       field_to_gen (output_row, n, tr) =
     (case map_of (editable_prompts st) field_to_gen of
        None \<Rightarrow> Inr (dict_set field_to_gen (PStr ''ERROR: No Prompt'') output_row, n, tr)
      | Some prompt_template \<Rightarrow>
          if prompt_template = []
          then Inr (dict_set field_to_gen (PStr ''ERROR: No Prompt'') output_row, n, tr)
          else
            (case fmt_prompt_cells prompt_template topic_input_val primary_keyword_val
                    secondary_keywords_val st of
               Inl e \<Rightarrow> Inl (e, n, tr)
             | Inr fmt \<Rightarrow>
                 (let call = generate_content fmt (model_name st) (llm_temperature st) 3 5
                               keys (world n);
                      generated_val = result_text (fst call);
                      row = dict_set field_to_gen (PStr generated_val) output_row;
                      row = (if field_to_gen = ''main_text_html''
                             then dict_set ''found_external_links_in_html''
                                    (PStr (found_links_in_html (approved_external_links st)
                                             generated_val))
                                    (dict_set ''found_internal_links_in_html''
                                       (PStr (found_links_in_html (approved_internal_links st)
                                                generated_val))
                                       row)
                             else row)
                  in Inr (row, n + 1, tr @ snd call))))"

fun gen_fields ::
  "'t session \<Rightarrow> api_keys \<Rightarrow> (nat \<Rightarrow> 't backend) \<Rightarrow> pyval \<Rightarrow> pyval \<Rightarrow> pyval \<Rightarrow> string list
     \<Rightarrow> output_row \<times> nat \<times> event list
     \<Rightarrow> (fault \<times> nat \<times> event list) + (output_row \<times> nat \<times> event list)" where
  "gen_fields st keys world tv pv sv [] acc = Inr acc"
| "gen_fields st keys world tv pv sv (field_to_gen # fs) acc =
     (case gen_field st keys world tv pv sv field_to_gen acc of
        Inl e \<Rightarrow> Inl e
      | Inr acc' \<Rightarrow> gen_fields st keys world tv pv sv fs acc')"

text \<open>The body of \<open>for i, topic_row in enumerate(...)\<close>: one output row per topic row.\<close>

fun gen_row ::
  "'t session \<Rightarrow> api_keys \<Rightarrow> (nat \<Rightarrow> 't backend) \<Rightarrow> (string \<times> pyval) list
     \<Rightarrow> output_row list \<times> nat \<times> event list
     \<Rightarrow> (fault \<times> nat \<times> event list) + (output_row list \<times> nat \<times> event list)" where
  "gen_row st keys world topic_row (all_generated_data_list, n, tr) =
     (let topic_input_val = dict_get topic_row ''topic_input'' (PStr ''N/A'');
          primary_keyword_val = dict_get topic_row ''primary_keyword'' (PStr '''');
          secondary_keywords_val = dict_get topic_row ''secondary_keywords'' (PStr '''');
          output_row = [(''topic_input'', topic_input_val),
                        (''primary_keyword'', primary_keyword_val),
                        (''secondary_keywords'', secondary_keywords_val)]
      in case gen_fields st keys world topic_input_val primary_keyword_val
                secondary_keywords_val generated_fields (output_row, n, tr) of
           Inl e \<Rightarrow> Inl e
         | Inr (row, n', tr') \<Rightarrow> Inr (all_generated_data_list @ [row], n', tr'))"

fun gen_rows ::
  "'t session \<Rightarrow> api_keys \<Rightarrow> (nat \<Rightarrow> 't backend) \<Rightarrow> (string \<times> pyval) list list
     \<Rightarrow> output_row list \<times> nat \<times> event list
     \<Rightarrow> (fault \<times> nat \<times> event list) + (output_row list \<times> nat \<times> event list)" where
  "gen_rows st keys world [] acc = Inr acc"
| "gen_rows st keys world (topic_row # topic_rows) acc =
     (case gen_row st keys world topic_row acc of
        Inl e \<Rightarrow> Inl e
      | Inr acc' \<Rightarrow> gen_rows st keys world topic_rows acc')"

text \<open>
  How the block triggered by a button ends: \<open>st.warning\<close> followed by \<open>st.stop()\<close>, an
  exception that nothing catches, or the list of output rows. With it come the number
  of \<open>generate_content\<close> calls and their events.
\<close>

datatype run_outcome =
    Stopped string
  | Crashed fault
  | Completed "output_row list"

definition run_generation ::
  "'t session \<Rightarrow> api_keys \<Rightarrow> (nat \<Rightarrow> 't backend) \<Rightarrow> run_outcome \<times> nat \<times> event list" where
  "run_generation st keys world =
     (if df_empty (topics_df st)
      then (Stopped ''No topics to process. Please upload a CSV or add topics in the editor.'',
            0, [])
      else
        (let topics_df_to_process =
               (if run_mode st = ''first_only'' then df_head1 (topics_df st) else topics_df st)
         in if run_mode st = ''first_only'' \<and> df_empty topics_df_to_process
            then (Stopped
              ''No topics available to test with 'First Topic Only'. Add topics to the editor.'',
              0, [])
            else
              (case gen_rows st keys world (to_records topics_df_to_process) ([], 0, []) of
                 Inl (e, n, tr) \<Rightarrow> (Crashed e, n, tr)
               | Inr (all_generated_data_list, n, tr) \<Rightarrow>
                   (Completed all_generated_data_list, n, tr))))"

section \<open>Saving and loading the configuration\<close>










section \<open>The link audit as the specification words it\<close>

text \<open>
  The approved URLs are, in line order, the stripped text before the first colon of each
  non-blank line that has a colon; a URL is matched when it is a substring of the body;
  the matched URLs, in list order and with repetitions, are joined with \<open>" | "\<close>.
\<close>

definition before_first_colon :: "string \<Rightarrow> string" where
  "before_first_colon line = takeWhile (\<lambda>c. c \<noteq> CHR '':'') line"

definition non_blank :: "string \<Rightarrow> bool" where
  "non_blank line \<longleftrightarrow> (\<exists>c \<in> set line. \<not> is_space c)"

definition approved_urls_spec :: "string \<Rightarrow> string list" where
  "approved_urls_spec links_text =
     map (\<lambda>line. strip (before_first_colon line))
         (filter (\<lambda>line. non_blank line \<and> CHR '':'' \<in> set line) (splitlines links_text))"

definition is_substring :: "string \<Rightarrow> string \<Rightarrow> bool" where
  "is_substring url body \<longleftrightarrow> (\<exists>pre post. body = pre @ url @ post)"

definition audit_links_spec :: "string \<Rightarrow> string \<Rightarrow> string \<Rightarrow> string \<times> string" where
  "audit_links_spec internal_text external_text body =
     (join '' | '' (filter (\<lambda>url. is_substring url body) (approved_urls_spec internal_text)),
      join '' | '' (filter (\<lambda>url. is_substring url body) (approved_urls_spec external_text)))"

section \<open>Notions used in the statements\<close>

text \<open>
  The events of \<open>n\<close> attempts that all fail before the last: attempt \<open>i\<close>, then a sleep
  of \<open>delay_seconds * i\<close>, for every attempt \<open>i\<close> after \<open>a\<close> and before \<open>n\<close>, and
  attempt \<open>n\<close> with no sleep after it.
\<close>

definition backoff_trace_from :: "nat \<Rightarrow> nat \<Rightarrow> nat \<Rightarrow> event list" where
  "backoff_trace_from delay_seconds a n =
     concat (map (\<lambda>i. [ApiCall i, Sleep (delay_seconds * i)]) [Suc a..<n]) @ [ApiCall n]"

definition backoff_trace :: "nat \<Rightarrow> nat \<Rightarrow> event list" where
  "backoff_trace delay_seconds n = backoff_trace_from delay_seconds 0 n"

text \<open>A field of an output row that holds a string.\<close>

definition holds_text :: "output_row \<Rightarrow> string \<Rightarrow> bool" where
  "holds_text row field \<longleftrightarrow> (\<exists>s. map_of row field = Some (PStr s))"

text \<open>A topic row whose three topic cells, where present, are strings.\<close>

definition string_cells :: "(string \<times> pyval) list \<Rightarrow> bool" where
  "string_cells topic_row \<longleftrightarrow>
     as_str (dict_get topic_row ''topic_input'' (PStr ''N/A'')) \<noteq> None
     \<and> as_str (dict_get topic_row ''primary_keyword'' (PStr '''')) \<noteq> None
     \<and> as_str (dict_get topic_row ''secondary_keywords'' (PStr '''')) \<noteq> None"




section \<open>Example inputs\<close>

text \<open>
  Concrete credentials, backends and session values, used where a property is shown or
  refuted at an explicit input.
\<close>

definition gemini_only_keys :: api_keys where
  "gemini_only_keys =
     \<lparr>gemini_api_key = Some ''key'', openai_api_key = None, anthropic_api_key = None\<rparr>"

definition raising_backend :: "string \<Rightarrow> unit backend" where
  "raising_backend detail = \<lparr>setup_fault = None, invoke = (\<lambda>m t p k. Raised detail)\<rparr>"

definition answering_backend :: "string \<Rightarrow> unit backend" where
  "answering_backend answer =
     \<lparr>setup_fault = None, invoke = (\<lambda>m t p k. Responded (Response (Some answer) None))\<rparr>"

definition example_session :: "pyval list list \<Rightarrow> unit session" where
  "example_session rows =
     \<lparr>brand_guidelines = ''Friendly.'', seo_summary = ''Natural keywords.'',
       approved_internal_links = ''https://a.com: A\<newline>https://b.com: B'',
       approved_external_links = ''https://c.org: C'',
       target_internal_links = 2, target_external_links = 1,
       model_name = ''gemini-2.5-pro-exp-03-25'', llm_temperature = (),
       topics_df = ([''topic_input'', ''primary_keyword'', ''secondary_keywords''], rows),
       editable_prompts =
         [(''page_title'', ''Title: [TOPIC_INPUT]''),
          (''meta_description'', ''Meta: [PRIMARY_KEYWORD]''),
          (''h1_tag'', ''H1: [TOPIC_INPUT]''),
          (''subtitle'', ''Sub: [TOPIC_INPUT]''),
          (''alt_text'', ''Alt: [PRIMARY_KEYWORD]''),
          (''main_text_html'', ''Body: [SECONDARY_KEYWORDS_LIST]'')],
       run_mode = ''all''\<rparr>"

text \<open>A run in which every \<open>generate_content\<close> call meets the same backend.\<close>

definition same_backend :: "'t backend \<Rightarrow> nat \<Rightarrow> 't backend" where
  "same_backend be n = be"


section \<open>Properties of the link audit\<close>

lemma str_contains_iff: "str_contains needle hay \<longleftrightarrow> (\<exists>pre post. hay = pre @ needle @ post)"
proof (induction hay)
  case Nil
  then show ?case by auto
next
  case (Cons c cs)
  show ?case
  proof
    assume "str_contains needle (c # cs)"
    then consider "prefix needle (c # cs)" | "str_contains needle cs" by auto
    then show "\<exists>pre post. c # cs = pre @ needle @ post"
    proof cases
      case 1
      then obtain post where "c # cs = needle @ post" by (auto simp: prefix_def)
      then have "c # cs = [] @ needle @ post" by simp
      then show ?thesis by blast
    next
      case 2
      with Cons.IH obtain pre post where "cs = pre @ needle @ post" by blast
      then have "c # cs = (c # pre) @ needle @ post" by simp
      then show ?thesis by blast
    qed
  next
    assume "\<exists>pre post. c # cs = pre @ needle @ post"
    then obtain pre post where eq: "c # cs = pre @ needle @ post" by blast
    show "str_contains needle (c # cs)"
    proof (cases pre)
      case Nil
      with eq have "prefix needle (c # cs)" by (simp add: prefix_def)
      then show ?thesis by simp
    next
      case (Cons p ps)
      with eq have "cs = ps @ needle @ post" by simp
      with Cons.IH have "str_contains needle cs" by blast
      then show ?thesis by simp
    qed
  qed
qed

lemma dropWhile_nonempty_iff: "dropWhile P xs \<noteq> [] \<longleftrightarrow> (\<exists>x \<in> set xs. \<not> P x)"
  by (induction xs) auto

lemma strip_nonempty_iff: "strip line \<noteq> [] \<longleftrightarrow> non_blank line"
proof
  assume "strip line \<noteq> []"
  then have "dropWhile is_space (rev (dropWhile is_space line)) \<noteq> []"
    unfolding strip_def by simp
  then obtain x where "x \<in> set (rev (dropWhile is_space line))" and nsp: "\<not> is_space x"
    unfolding dropWhile_nonempty_iff by blast
  then have "x \<in> set (dropWhile is_space line)" by simp
  then have "x \<in> set line" by (rule set_dropWhileD)
  with nsp show "non_blank line" unfolding non_blank_def by blast
next
  assume "non_blank line"
  then have ne: "dropWhile is_space line \<noteq> []"
    unfolding non_blank_def dropWhile_nonempty_iff .
  then have "\<not> is_space (hd (dropWhile is_space line))" by (rule hd_dropWhile)
  moreover from ne have "hd (dropWhile is_space line) \<in> set (rev (dropWhile is_space line))"
    by simp
  ultimately have "dropWhile is_space (rev (dropWhile is_space line)) \<noteq> []"
    unfolding dropWhile_nonempty_iff by blast
  then show "strip line \<noteq> []" unfolding strip_def by simp
qed

lemma hd_split_once: "hd (split_once sep line) = takeWhile (\<lambda>c. c \<noteq> sep) line"
proof (cases "dropWhile (\<lambda>c. c \<noteq> sep) line")
  case Nil
  then have "\<forall>x \<in> set line. x \<noteq> sep" by (simp add: dropWhile_eq_Nil_conv)
  then have tw: "takeWhile (\<lambda>c. c \<noteq> sep) line = line" by (simp add: takeWhile_eq_all_conv)
  show ?thesis unfolding split_once_def Nil by (simp add: tw)
next
  case (Cons a rest)
  show ?thesis unfolding split_once_def Cons by simp
qed

lemma foldl_approved_urls_step:
  "foldl approved_urls_step acc ls =
     acc @ map (\<lambda>line. strip (before_first_colon line))
               (filter (\<lambda>line. non_blank line \<and> CHR '':'' \<in> set line) ls)"
  by (induction ls arbitrary: acc)
     (simp_all add: approved_urls_step_def hd_split_once before_first_colon_def strip_nonempty_iff)

lemma approved_urls_full_spec: "approved_urls_full t = approved_urls_spec t"
  by (simp add: approved_urls_full_def approved_urls_spec_def foldl_approved_urls_step)

text \<open>
  Claim C3. For every pair of raw link-list texts and every body, the audit of the
  generation loop is the audit as the specification words it: the approved URLs are, in
  line order, the stripped text before the first colon of each non-blank line with a
  colon (lines without a colon are left out), a URL is matched exactly when it is a
  substring of the body, the matches keep the order and the repetitions of the approved
  list, and both derived fields are the matches joined with \<open>" | "\<close>.
\<close>

theorem audit_links_refines_spec:
  "audit_links internal_text external_text body
     = audit_links_spec internal_text external_text body"
  by (simp add: audit_links_def audit_links_spec_def found_links_in_html_def
      approved_urls_full_spec str_contains_iff is_substring_def)

text \<open>
  Claim C1. With the internal list \<open>"https://a.com: A"\<close>, \<open>"https://b.com: B"\<close> and a
  body that contains \<open>https://a.com\<close>, the audit should report the internal match
  \<open>https://a.com\<close> and no external match. The code cuts every line at its first colon,
  which is the colon of \<open>https:\<close>, so each approved URL becomes \<open>https\<close>: both internal
  lines are reported as \<open>https\<close>, and so is an external line whose URL is nowhere in
  the body.
\<close>

theorem audit_links_cuts_at_scheme_colon:
  "audit_links ''https://a.com: A\<newline>https://b.com: B'' ''https://c.org: C''
     ''...see https://a.com for more...''
   = (''https | https'', ''https'')"
  by (simp add: audit_links_def found_links_in_html_def approved_urls_full_def
      approved_urls_step_def splitlines_def strip_def split_once_def is_space_def
      is_linebreak_def)

section \<open>Properties of the template substitution\<close>

lemma token_not_Nil: "token name \<noteq> []"
  by (simp add: token_def)

lemma replace_all_text:
  "CHR ''['' \<notin> set t \<Longrightarrow> replace_all (token name) v (t @ s) = t @ replace_all (token name) v s"
  by (induction t) (auto simp: token_def)

lemma prefix_closed_name:
  "b \<notin> set x \<Longrightarrow> b \<notin> set n \<Longrightarrow> prefix (x @ [b]) (n @ b # s) \<Longrightarrow> x = n"
proof (induction x arbitrary: n)
  case Nil
  then show ?case by (cases n) auto
next
  case (Cons a x)
  then show ?case by (cases n) auto
qed

lemma prefix_token_group:
  "CHR '']'' \<notin> set name \<Longrightarrow> CHR '']'' \<notin> set n \<Longrightarrow>
   prefix (token name) (token n @ s) \<longleftrightarrow> name = n"
proof
  assume a: "CHR '']'' \<notin> set name" "CHR '']'' \<notin> set n" and "prefix (token name) (token n @ s)"
  then have "prefix (name @ [CHR '']'']) (n @ CHR '']'' # s)" by (simp add: token_def)
  with a show "name = n" by (rule prefix_closed_name)
next
  assume "name = n"
  then show "prefix (token name) (token n @ s)" by simp
qed

lemma replace_all_same_group:
  "replace_all (token name) v (token name @ s) = v @ replace_all (token name) v s"
  by (simp add: token_def)

lemma replace_all_other_group:
  assumes "CHR '']'' \<notin> set name" "flat_piece (Group n)" "n \<noteq> name"
  shows "replace_all (token name) v (token n @ s) = token n @ replace_all (token name) v s"
proof -
  from assms have np: "\<not> prefix (token name) (token n @ s)"
    by (simp add: prefix_token_group)
  have "replace_all (token name) v (token n @ s)
      = CHR ''['' # replace_all (token name) v (n @ CHR '']'' # s)"
    using np by (simp add: token_def)
  also have "\<dots> = CHR ''['' # n @ replace_all (token name) v (CHR '']'' # s)"
    using assms(2) by (simp add: replace_all_text)
  also have "\<dots> = CHR ''['' # n @ CHR '']'' # replace_all (token name) v s"
    by (simp add: token_def)
  finally show ?thesis by (simp add: token_def)
qed

lemma render_Nil: "render [] = []"
  by (simp add: render_def)

lemma render_Cons: "render (p # ps) = render_piece p @ render ps"
  by (simp add: render_def)

lemma replace_piece_Text: "replace_piece name v (Text t) = Text t"
  by (simp add: replace_piece_def)

lemma replace_piece_Group:
  "replace_piece name v (Group n) = (if n = name then Text v else Group n)"
  by (simp add: replace_piece_def)

lemma replace_all_render:
  assumes "\<forall>p \<in> set ps. flat_piece p" "CHR '']'' \<notin> set name"
  shows "replace_all (token name) v (render ps) = render (map (replace_piece name v) ps)"
  using assms(1)
proof (induction ps)
  case Nil
  then show ?case by (simp add: render_Nil token_def)
next
  case (Cons p ps)
  then have IH: "replace_all (token name) v (render ps) = render (map (replace_piece name v) ps)"
    by simp
  show ?case
  proof (cases p)
    case (Text t)
    with Cons.prems have "CHR ''['' \<notin> set t" by simp
    then show ?thesis
      using IH Text by (simp add: render_Cons replace_all_text replace_piece_Text)
  next
    case (Group n)
    with Cons.prems have fl: "flat_piece (Group n)" by simp
    show ?thesis
    proof (cases "n = name")
      case True
      then show ?thesis
        using IH Group by (simp add: render_Cons replace_all_same_group replace_piece_Group)
    next
      case False
      then show ?thesis
        using IH Group replace_all_other_group [OF assms(2) fl False]
        by (simp add: render_Cons replace_piece_Group)
    qed
  qed
qed

lemma flat_replace_piece:
  "flat_piece p \<Longrightarrow> CHR ''['' \<notin> set v \<Longrightarrow> flat_piece (replace_piece name v p)"
  by (simp add: replace_piece_def)

lemma substitute_replace_piece:
  "substitute_piece ctx (replace_piece name v p) = substitute_piece ((name, v) # ctx) p"
  by (cases p) (auto simp: replace_piece_def)

lemma foldl_replace_pass_render:
  assumes "\<forall>(name, v) \<in> set ctx. CHR '']'' \<notin> set name \<and> CHR ''['' \<notin> set v"
    and "\<forall>p \<in> set ps. flat_piece p"
  shows "foldl replace_pass (render ps) ctx = render (map (substitute_piece ctx) ps)"
  using assms
proof (induction ctx arbitrary: ps)
  case Nil
  have "map (substitute_piece []) ps = ps"
    by (rule map_idI) (case_tac x, simp_all)
  then show ?case by simp
next
  case (Cons nv ctx)
  obtain name v where nv: "nv = (name, v)" by (cases nv)
  from Cons.prems nv have c: "CHR '']'' \<notin> set name" and o: "CHR ''['' \<notin> set v"
    and rest: "\<forall>(name, v) \<in> set ctx. CHR '']'' \<notin> set name \<and> CHR ''['' \<notin> set v"
    by auto
  from Cons.prems(2) o have fl: "\<forall>p \<in> set (map (replace_piece name v) ps). flat_piece p"
    by (auto simp: flat_replace_piece)
  have "foldl replace_pass (render ps) (nv # ctx)
      = foldl replace_pass (render (map (replace_piece name v) ps)) ctx"
    using replace_all_render [OF Cons.prems(2) c] by (simp add: nv replace_pass_def)
  also have "\<dots> = render (map (substitute_piece ctx) (map (replace_piece name v) ps))"
    using rest fl by (rule Cons.IH)
  also have "\<dots> = render (map (substitute_piece (nv # ctx)) ps)"
    by (simp add: nv substitute_replace_piece comp_def)
  finally show ?case .
qed

lemma fmt_prompt_foldl:
  "fmt_prompt tpl t p s st = foldl replace_pass tpl (generation_context t p s st)"
  by (simp add: fmt_prompt_def generation_context_def replace_pass_def token_def)

lemma str_contains_text:
  "CHR ''['' \<notin> set t \<Longrightarrow> str_contains (token name) (t @ s) = str_contains (token name) s"
  by (induction t) (auto simp: token_def)

lemma str_contains_other_group:
  assumes "CHR '']'' \<notin> set name" "flat_piece (Group n)" "n \<noteq> name"
  shows "str_contains (token name) (token n @ s) = str_contains (token name) s"
proof -
  from assms have np: "\<not> prefix (token name) (token n @ s)"
    by (simp add: prefix_token_group)
  have "str_contains (token name) (token n @ s)
      = str_contains (token name) (n @ CHR '']'' # s)"
    using np by (simp add: token_def)
  also have "\<dots> = str_contains (token name) (CHR '']'' # s)"
    using assms(2) by (simp add: str_contains_text)
  also have "\<dots> = str_contains (token name) s"
    by (simp add: token_def)
  finally show ?thesis .
qed

lemma str_contains_render:
  assumes "CHR '']'' \<notin> set name"
  shows "\<forall>p \<in> set ps. flat_piece p \<Longrightarrow> Group name \<notin> set ps \<Longrightarrow>
         \<not> str_contains (token name) (render ps)"
proof (induction ps)
  case Nil
  then show ?case by (simp add: render_Nil token_def)
next
  case (Cons p ps)
  then have IH: "\<not> str_contains (token name) (render ps)" by simp
  show ?case
  proof (cases p)
    case (Text t)
    with Cons.prems have "CHR ''['' \<notin> set t" by simp
    then show ?thesis using IH Text by (simp add: render_Cons str_contains_text)
  next
    case (Group n)
    with Cons.prems have fl: "flat_piece (Group n)" and ne: "n \<noteq> name" by auto
    show ?thesis
      using IH Group str_contains_other_group [OF assms fl ne] by (simp add: render_Cons)
  qed
qed

lemma substitute_piece_flat:
  assumes "\<forall>(name, v) \<in> set ctx. CHR ''['' \<notin> set v" "flat_piece p"
  shows "flat_piece (substitute_piece ctx p)"
proof (cases p)
  case (Text t)
  with assms show ?thesis by simp
next
  case (Group n)
  show ?thesis
  proof (cases "map_of ctx n")
    case None
    with Group assms show ?thesis by simp
  next
    case (Some v)
    then have "(n, v) \<in> set ctx" by (rule map_of_SomeD)
    with assms(1) have "CHR ''['' \<notin> set v" by auto
    with Some Group show ?thesis by simp
  qed
qed

lemma substitute_piece_no_known_group:
  assumes "name \<in> fst ` set ctx"
  shows "substitute_piece ctx p \<noteq> Group name"
proof (cases p)
  case (Text t)
  then show ?thesis by simp
next
  case (Group n)
  show ?thesis
  proof (cases "map_of ctx n")
    case None
    then have "n \<notin> fst ` set ctx" by (simp add: map_of_eq_None_iff)
    with assms have "n \<noteq> name" by auto
    with None Group show ?thesis by simp
  next
    case (Some v)
    with Group show ?thesis by simp
  qed
qed

lemma digit_char_no_bracket: "d < 10 \<Longrightarrow> digit_char d \<noteq> CHR ''[''"
proof -
  assume "d < 10"
  then have "digit_char d \<in> set ''0123456789''"
    unfolding digit_char_def by (intro nth_mem) simp
  then show ?thesis by auto
qed

lemma str_nat_no_bracket: "CHR ''['' \<notin> set (str_nat n)"
proof (induction n rule: str_nat.induct)
  case (1 n)
  show ?case
  proof (cases "n < 10")
    case True
    then show ?thesis using digit_char_no_bracket [of n] by (subst str_nat.simps) auto
  next
    case False
    have "n mod 10 < 10" by simp
    then have "digit_char (n mod 10) \<noteq> CHR ''[''" by (rule digit_char_no_bracket)
    with False 1 show ?thesis by (subst str_nat.simps) auto
  qed
qed

lemma str_int_no_bracket: "CHR ''['' \<notin> set (str_int i)"
  by (simp add: str_int_def str_nat_no_bracket)

text \<open>
  Claim C2, as amended. Take a template in which each \<open>[\<close> is closed by a \<open>]\<close> before
  the next \<open>[\<close> (a sequence of bracket-free text and bracketed names), and context
  values that contain no \<open>[\<close>. Then the resolved prompt is the template with every
  occurrence of each recognised token replaced by its context value and everything
  else, bracketed names outside the fixed set included, left as it is; and no
  recognised token occurs in it.
\<close>

theorem fmt_prompt_flat_template:
  assumes "\<forall>p \<in> set ps. flat_piece p"
    and "\<forall>v \<in> set [topic_input_val, primary_keyword_val, secondary_keywords_val,
            brand_guidelines st, seo_summary st, approved_internal_links st,
            approved_external_links st]. CHR ''['' \<notin> set v"
  shows "fmt_prompt (render ps) topic_input_val primary_keyword_val secondary_keywords_val st
       = render (map (substitute_piece
            (generation_context topic_input_val primary_keyword_val secondary_keywords_val st)) ps)
     \<and> (\<forall>name \<in> set token_names.
          \<not> str_contains (token name)
             (fmt_prompt (render ps) topic_input_val primary_keyword_val secondary_keywords_val st))"
proof -
  let ?ctx = "generation_context topic_input_val primary_keyword_val secondary_keywords_val st"
  have ctx: "\<forall>(name, v) \<in> set ?ctx. CHR '']'' \<notin> set name \<and> CHR ''['' \<notin> set v"
    using assms(2) by (simp add: generation_context_def str_int_no_bracket)
  then have vals: "\<forall>(name, v) \<in> set ?ctx. CHR ''['' \<notin> set v" by auto
  have eq: "fmt_prompt (render ps) topic_input_val primary_keyword_val secondary_keywords_val st
       = render (map (substitute_piece ?ctx) ps)"
    unfolding fmt_prompt_foldl using ctx assms(1) by (rule foldl_replace_pass_render)
  have names: "set token_names = fst ` set ?ctx"
    by (simp add: token_names_def generation_context_def)
  have "\<not> str_contains (token name) (render (map (substitute_piece ?ctx) ps))"
    if "name \<in> set token_names" for name
  proof (rule str_contains_render)
    from that ctx names show "CHR '']'' \<notin> set name" by fastforce
    show "\<forall>p \<in> set (map (substitute_piece ?ctx) ps). flat_piece p"
      using vals assms(1) by (auto intro: substitute_piece_flat)
    from that names have "name \<in> fst ` set ?ctx" by simp
    then show "Group name \<notin> set (map (substitute_piece ?ctx) ps)"
      using substitute_piece_no_known_group by fastforce
  qed
  with eq show ?thesis by simp
qed

theorem fmt_prompt_flat_template_witness:
  "fmt_prompt ''Hello [UNKNOWN], write on [TOPIC_INPUT] ([PRIMARY_KEYWORD])'' ''hiring'' ''hire'' ''''
     \<lparr>brand_guidelines = ''B'', seo_summary = ''S'', approved_internal_links = ''I'',
       approved_external_links = ''E'', target_internal_links = 2, target_external_links = 1\<rparr>
   = ''Hello [UNKNOWN], write on hiring (hire)''
   \<and> list_all (\<lambda>name. \<not> str_contains (token name)
        (fmt_prompt ''Hello [UNKNOWN], write on [TOPIC_INPUT] ([PRIMARY_KEYWORD])'' ''hiring'' ''hire'' ''''
     \<lparr>brand_guidelines = ''B'', seo_summary = ''S'', approved_internal_links = ''I'',
       approved_external_links = ''E'', target_internal_links = 2, target_external_links = 1\<rparr>))
      token_names"
proof -
  let ?ps = "[Text ''Hello '', Group ''UNKNOWN'', Text '', write on '', Group ''TOPIC_INPUT'',
              Text '' ('', Group ''PRIMARY_KEYWORD'', Text '')'']"
  let ?st = "\<lparr>brand_guidelines = ''B'', seo_summary = ''S'', approved_internal_links = ''I'',
       approved_external_links = ''E'', target_internal_links = 2, target_external_links = 1\<rparr>"
  have flat: "\<forall>p \<in> set ?ps. flat_piece p" by simp
  have vals: "\<forall>v \<in> set [''hiring'', ''hire'', '''', brand_guidelines ?st, seo_summary ?st,
      approved_internal_links ?st, approved_external_links ?st]. CHR ''['' \<notin> set v" by simp
  have tpl: "render ?ps = ''Hello [UNKNOWN], write on [TOPIC_INPUT] ([PRIMARY_KEYWORD])''"
    by (simp add: render_def token_def)
  have res: "render (map (substitute_piece (generation_context ''hiring'' ''hire'' '''' ?st)) ?ps)
      = ''Hello [UNKNOWN], write on hiring (hire)''"
    by (simp add: render_def token_def generation_context_def)
  from fmt_prompt_flat_template [OF flat vals] show ?thesis unfolding tpl res list_all_iff .
qed

text \<open>
  Claim C2 as stated fails: the nine replacements run one after the other over the
  whole text, so a topic that reads \<open>[PRIMARY_KEYWORD]\<close> is substituted again by the
  second replacement, and a primary keyword that reads \<open>[TOPIC_INPUT]\<close> leaves that
  token in the resolved prompt. A token is also left when a replacement closes up the
  text around it, as an empty topic does inside \<open>[TOPIC[TOPIC_INPUT]_INPUT]\<close>.
\<close>

theorem fmt_prompt_rescans_values:
  "fmt_prompt ''[TOPIC_INPUT]'' ''[PRIMARY_KEYWORD]'' ''kw'' ''''
     \<lparr>brand_guidelines = ''B'', seo_summary = ''S'', approved_internal_links = ''I'',
       approved_external_links = ''E'', target_internal_links = 2, target_external_links = 1\<rparr>
   = ''kw''
   \<and> fmt_prompt ''[PRIMARY_KEYWORD]'' ''topic'' ''[TOPIC_INPUT]'' ''''
     \<lparr>brand_guidelines = ''B'', seo_summary = ''S'', approved_internal_links = ''I'',
       approved_external_links = ''E'', target_internal_links = 2, target_external_links = 1\<rparr>
   = ''[TOPIC_INPUT]''
   \<and> str_contains (token ''TOPIC_INPUT'') ''[TOPIC_INPUT]''
   \<and> fmt_prompt ''[TOPIC[TOPIC_INPUT]_INPUT]'' '''' ''kw'' ''''
     \<lparr>brand_guidelines = ''B'', seo_summary = ''S'', approved_internal_links = ''I'',
       approved_external_links = ''E'', target_internal_links = 2, target_external_links = 1\<rparr>
   = ''[TOPIC_INPUT]''"
  by (simp add: fmt_prompt_def token_def)

section \<open>Properties of generate_content\<close>

lemma backoff_trace_from_step:
  "Suc a < n \<Longrightarrow> backoff_trace_from d a n
     = [ApiCall (Suc a), Sleep (d * Suc a)] @ backoff_trace_from d (Suc a) n"
  by (simp add: backoff_trace_from_def upt_conv_Cons)

lemma backoff_trace_from_last: "backoff_trace_from d a (Suc a) = [ApiCall (Suc a)]"
  by (simp add: backoff_trace_from_def)

lemma retry_loop_all_raise:
  shows "\<forall>k < nat retries. call k = Raised (detail k) \<Longrightarrow> int attempt < retries \<Longrightarrow>
         retry_loop p call retries d attempt tr
           = (ApiCallFailed (detail (nat retries - 1)), tr @ backoff_trace_from d attempt (nat retries))"
proof (induction p call retries d attempt tr rule: retry_loop.induct)
  case (1 p call retries d attempt tr)
  from "1.prems" have lt: "attempt < nat retries" by simp
  with "1.prems"(1) have raised: "call attempt = Raised (detail attempt)" by simp
  show ?case
  proof (cases "int attempt < retries - 1")
    case True
    then have s: "Suc attempt < nat retries" by simp
    from True have next_ok: "int (attempt + 1) < retries" by simp
    have "retry_loop p call retries d attempt tr
        = retry_loop p call retries d (attempt + 1)
            (tr @ [ApiCall (attempt + 1), Sleep (d * (attempt + 1))])"
      using "1.prems" True raised by (subst retry_loop.simps) simp
    also have "\<dots> = (ApiCallFailed (detail (nat retries - 1)),
        (tr @ [ApiCall (attempt + 1), Sleep (d * (attempt + 1))])
          @ backoff_trace_from d (attempt + 1) (nat retries))"
      using "1.IH"(1) [of "detail attempt"] "1.prems" raised True next_ok by simp
    finally show ?thesis using backoff_trace_from_step [OF s, of d] by simp
  next
    case False
    with "1.prems" have last: "nat retries = Suc attempt" by simp
    have "retry_loop p call retries d attempt tr
        = (ApiCallFailed (detail attempt), tr @ [ApiCall (attempt + 1)])"
      using "1.prems" False raised by (subst retry_loop.simps) simp
    then show ?thesis by (simp add: last backoff_trace_from_last)
  qed
qed

lemma api_calls_attempts:
  "length (filter is_api_call (concat (map (\<lambda>i. [ApiCall i, Sleep (d * i)]) xs))) = length xs"
  by (induction xs) simp_all

lemma sleeps_attempts:
  "filter (\<lambda>e. \<not> is_api_call e) (concat (map (\<lambda>i. [ApiCall i, Sleep (d * i)]) xs))
     = map (\<lambda>i. Sleep (d * i)) xs"
  by (induction xs) simp_all

lemma api_calls_backoff_trace: "0 < n \<Longrightarrow> api_calls (backoff_trace d n) = n"
  by (simp add: api_calls_def backoff_trace_def backoff_trace_from_def api_calls_attempts)

lemma sleeps_backoff_trace:
  "sleeps (backoff_trace d n) = map (\<lambda>i. Sleep (d * i)) [1..<n]"
  by (simp add: sleeps_def backoff_trace_def backoff_trace_from_def sleeps_attempts)

lemma generate_content_reaches_loop:
  assumes "select_provider model = Some p"
    and "\<not> key_missing (provider_key keys p)"
    and "setup_fault be = None"
  shows "generate_content prompt_text model temperature retries delay_seconds keys be
       = retry_loop p (invoke be model temperature prompt_text) retries delay_seconds 0 []"
  using assms by (simp add: generate_content_def)

text \<open>
  Claim C4, as amended. When the provider is recognised, its key is present, the client
  is set up without a fault, \<open>retries\<close> is at least 1 and every vendor call raises,
  \<open>generate_content\<close> makes exactly \<open>retries\<close> calls, sleeps \<open>delay_seconds * i\<close>
  after each attempt \<open>i\<close> but the last (attempts counted from 1), and returns
  \<open>"ERROR: API call failed - "\<close> followed by the detail of the last exception.
\<close>

theorem generate_content_all_attempts_raise:
  assumes "select_provider model = Some p"
    and "\<not> key_missing (provider_key keys p)"
    and "setup_fault be = None"
    and "1 \<le> retries"
    and "\<forall>k < nat retries. invoke be model temperature prompt_text k = Raised (detail k)"
  shows "generate_content prompt_text model temperature retries delay_seconds keys be
           = (ApiCallFailed (detail (nat retries - 1)), backoff_trace delay_seconds (nat retries))
       \<and> result_text (fst (generate_content prompt_text model temperature retries
                                delay_seconds keys be))
           = ''ERROR: API call failed - '' @ detail (nat retries - 1)
       \<and> api_calls (snd (generate_content prompt_text model temperature retries
                              delay_seconds keys be)) = nat retries
       \<and> sleeps (snd (generate_content prompt_text model temperature retries
                           delay_seconds keys be))
           = map (\<lambda>i. Sleep (delay_seconds * i)) [1..<nat retries]"
proof -
  from assms(4) have pos: "int 0 < retries" and npos: "0 < nat retries" by simp_all
  have "generate_content prompt_text model temperature retries delay_seconds keys be
      = retry_loop p (invoke be model temperature prompt_text) retries delay_seconds 0 []"
    using assms(1-3) by (rule generate_content_reaches_loop)
  also have "\<dots> = (ApiCallFailed (detail (nat retries - 1)),
      [] @ backoff_trace_from delay_seconds 0 (nat retries))"
    using assms(5) pos by (rule retry_loop_all_raise)
  finally have eq: "generate_content prompt_text model temperature retries delay_seconds
      keys be = (ApiCallFailed (detail (nat retries - 1)), backoff_trace delay_seconds (nat retries))"
    by (simp add: backoff_trace_def)
  show ?thesis
    unfolding eq using npos by (simp add: api_calls_backoff_trace sleeps_backoff_trace)
qed

theorem generate_content_all_attempts_raise_witness:
  "generate_content ''prompt'' ''gemini-2.5-pro-exp-03-25'' () 3 5
     \<lparr>gemini_api_key = Some ''key'', openai_api_key = None, anthropic_api_key = None\<rparr>
     \<lparr>setup_fault = None, invoke = (\<lambda>m t p k. Raised ''timeout'')\<rparr>
   = (ApiCallFailed ''timeout'', [ApiCall 1, Sleep 5, ApiCall 2, Sleep 10, ApiCall 3])"
proof -
  let ?keys = "\<lparr>gemini_api_key = Some ''key'', openai_api_key = None, anthropic_api_key = None\<rparr>"
  let ?be = "\<lparr>setup_fault = None, invoke = (\<lambda>m t p k. Raised ''timeout'')\<rparr> :: unit backend"
  have p: "select_provider ''gemini-2.5-pro-exp-03-25'' = Some Gemini"
    by (simp add: select_provider_def)
  have k: "\<not> key_missing (provider_key ?keys Gemini)" by simp
  have s: "setup_fault ?be = None" by simp
  have r: "(1::int) \<le> 3" by simp
  have a: "\<forall>k < nat 3. invoke ?be ''gemini-2.5-pro-exp-03-25'' () ''prompt'' k
             = Raised ((\<lambda>k. ''timeout'') k)" by simp
  have t: "backoff_trace 5 (nat 3) = [ApiCall 1, Sleep 5, ApiCall 2, Sleep 10, ApiCall 3]"
    by (simp add: backoff_trace_def backoff_trace_from_def upt_rec)
  from generate_content_all_attempts_raise [OF p k s r a, of 5] show ?thesis
    unfolding t by simp
qed

text \<open>
  Claim C4 as stated fails for \<open>retries = 0\<close>: the loop body never runs, no call is
  made, and the statement after the loop returns \<open>"ERROR: Max retries."\<close>.
\<close>

theorem generate_content_zero_retries:
  "generate_content ''prompt'' ''gemini-2.5-pro-exp-03-25'' () 0 5 gemini_only_keys
     (raising_backend ''timeout'')
   = (MaxRetries, [])
   \<and> result_text MaxRetries = ''ERROR: Max retries.''"
  by (simp add: generate_content_def select_provider_def retry_loop.simps gemini_only_keys_def
      raising_backend_def)

text \<open>
  Claim C6, as amended. When the key of the selected provider is absent (\<open>None\<close> or
  empty), \<open>generate_content\<close> returns \<open>"ERROR: API Key missing."\<close> without any vendor
  call and without any sleep, whatever \<open>retries\<close> and \<open>delay_seconds\<close> are.
\<close>

theorem generate_content_key_missing:
  assumes "select_provider model = Some p"
    and "key_missing (provider_key keys p)"
  shows "generate_content prompt_text model temperature retries delay_seconds keys be
           = (KeyMissing, [])
       \<and> result_text (fst (generate_content prompt_text model temperature retries
                                delay_seconds keys be)) = ''ERROR: API Key missing.''
       \<and> api_calls (snd (generate_content prompt_text model temperature retries
                              delay_seconds keys be)) = 0
       \<and> sleeps (snd (generate_content prompt_text model temperature retries
                           delay_seconds keys be)) = []"
  using assms by (simp add: generate_content_def api_calls_def sleeps_def)

theorem generate_content_key_missing_witness:
  "generate_content ''prompt'' ''gpt-4.1'' () 7 5
     \<lparr>gemini_api_key = Some ''key'', openai_api_key = None, anthropic_api_key = None\<rparr>
     \<lparr>setup_fault = None, invoke = (\<lambda>m t p k. Responded (Response (Some ''text'') None))\<rparr>
   = (KeyMissing, [])"
proof -
  let ?keys = "\<lparr>gemini_api_key = Some ''key'', openai_api_key = None, anthropic_api_key = None\<rparr>"
  have p: "select_provider ''gpt-4.1'' = Some OpenAI" by (simp add: select_provider_def)
  have k: "key_missing (provider_key ?keys OpenAI)" by simp
  show ?thesis by (rule generate_content_key_missing [OF p k, THEN conjunct1])
qed

text \<open>
  Claim C6 as stated fails in its count: with the key absent the number of vendor calls
  is 0, not 1; the key is tested before the loop of attempts is entered.
\<close>

theorem generate_content_key_missing_no_call:
  "generate_content ''prompt'' ''gpt-4.1'' () 3 5 gemini_only_keys (answering_backend ''text'')
     = (KeyMissing, [])
   \<and> api_calls (snd (generate_content ''prompt'' ''gpt-4.1'' () 3 5 gemini_only_keys
                         (answering_backend ''text''))) = 0"
  by (simp add: generate_content_def select_provider_def api_calls_def gemini_only_keys_def)

lemma empty_result_not_max: "empty_result p r \<noteq> MaxRetries"
  by (cases p) simp_all

lemma retry_loop_not_max:
  "int attempt < retries \<Longrightarrow> fst (retry_loop p call retries d attempt tr) \<noteq> MaxRetries"
proof (induction p call retries d attempt tr rule: retry_loop.induct)
  case (1 p call retries d attempt tr)
  show ?case
  proof (cases "int attempt < retries - 1")
    case True
    then have next_ok: "int (attempt + 1) < retries" by simp
    show ?thesis
    proof (cases "call attempt")
      case (Raised e)
      with "1.prems" True next_ok "1.IH"(1) [of e] show ?thesis
        by (subst retry_loop.simps) simp
    next
      case (Responded r)
      show ?thesis
      proof (cases "usable_text p r")
        case None
        with "1.prems" True next_ok Responded "1.IH"(2) [of r] show ?thesis
          by (subst retry_loop.simps) simp
      next
        case (Some t)
        with "1.prems" Responded show ?thesis by (subst retry_loop.simps) simp
      qed
    qed
  next
    case False
    with "1.prems" show ?thesis
      by (subst retry_loop.simps)
         (simp add: empty_result_not_max split: call_outcome.splits option.splits)
  qed
qed

lemma result_text_max_retries:
  "result_text r = ''ERROR: Max retries.'' \<Longrightarrow> r \<noteq> MaxRetries \<Longrightarrow>
   r = Generated ''ERROR: Max retries.''"
  by (cases r) simp_all

lemma empty_result_not_generated: "empty_result p r \<noteq> Generated s"
  by (cases p) simp_all

lemma usable_text_resp_text: "usable_text p r = Some t \<Longrightarrow> resp_text r = Some t"
  by (cases p) (auto split: option.splits if_splits)

lemma retry_loop_generated:
  "fst (retry_loop p call retries d attempt tr) = Generated s \<Longrightarrow>
   \<exists>k r t. int k < retries \<and> call k = Responded r \<and> resp_text r = Some t \<and> strip t = s"
proof (induction p call retries d attempt tr rule: retry_loop.induct)
  case (1 p call retries d attempt tr)
  show ?case
  proof (cases "int attempt < retries")
    case False
    with "1.prems" show ?thesis by (subst (asm) retry_loop.simps) simp
  next
    case in_range: True
    show ?thesis
    proof (cases "call attempt")
      case (Raised e)
      show ?thesis
      proof (cases "int attempt < retries - 1")
        case True
        with "1.prems" in_range Raised have
          "fst (retry_loop p call retries d (attempt + 1)
                  (tr @ [ApiCall (attempt + 1), Sleep (d * (attempt + 1))])) = Generated s"
          by (subst (asm) retry_loop.simps) simp
        with in_range Raised True "1.IH"(1) [of e] show ?thesis by simp
      next
        case False
        with "1.prems" in_range Raised show ?thesis by (subst (asm) retry_loop.simps) simp
      qed
    next
      case (Responded r)
      show ?thesis
      proof (cases "usable_text p r")
        case (Some t)
        with "1.prems" in_range Responded have "strip t = s"
          by (subst (asm) retry_loop.simps) simp
        moreover from Some have "resp_text r = Some t" by (rule usable_text_resp_text)
        ultimately show ?thesis using in_range Responded by blast
      next
        case None
        show ?thesis
        proof (cases "int attempt < retries - 1")
          case True
          with "1.prems" in_range Responded None have
            "fst (retry_loop p call retries d (attempt + 1)
                    (tr @ [ApiCall (attempt + 1), Sleep (d * (attempt + 1))])) = Generated s"
            by (subst (asm) retry_loop.simps) simp
          with in_range Responded None True "1.IH"(2) [of r] show ?thesis by simp
        next
          case False
          with "1.prems" in_range Responded None show ?thesis
            by (subst (asm) retry_loop.simps) (simp add: empty_result_not_generated)
        qed
      qed
    qed
  qed
qed

text \<open>
  Claim C10, as amended. For every \<open>retries\<close> of at least 1 and every behaviour of the
  backend, \<open>generate_content\<close> does not end in the return after the loop: the last
  attempt of each branch returns. Its result reads \<open>"ERROR: Max retries."\<close> only when
  one of the vendor responses within the attempts has, once stripped, that very text.
\<close>

theorem generate_content_never_max_retries:
  assumes "1 \<le> retries"
  shows "fst (generate_content prompt_text model temperature retries delay_seconds keys be)
           \<noteq> MaxRetries
       \<and> (result_text (fst (generate_content prompt_text model temperature retries
                                  delay_seconds keys be)) = ''ERROR: Max retries.''
            \<longrightarrow> (\<exists>k r t. int k < retries
                     \<and> invoke be model temperature prompt_text k = Responded r
                     \<and> resp_text r = Some t
                     \<and> strip t = ''ERROR: Max retries.''))"
proof -
  let ?gc = "generate_content prompt_text model temperature retries delay_seconds keys be"
  from assms have "int 0 < retries" by simp
  then have "fst (retry_loop p call retries delay_seconds 0 []) \<noteq> MaxRetries" for p call
    by (rule retry_loop_not_max)
  then have not_max: "fst ?gc \<noteq> MaxRetries"
    by (simp add: generate_content_def split: option.splits)
  have "\<exists>k r t. int k < retries \<and> invoke be model temperature prompt_text k = Responded r
          \<and> resp_text r = Some t \<and> strip t = ''ERROR: Max retries.''"
    if "result_text (fst ?gc) = ''ERROR: Max retries.''"
  proof -
    from that not_max have g: "fst ?gc = Generated ''ERROR: Max retries.''"
      by (rule result_text_max_retries)
    then obtain p where "fst (retry_loop p (invoke be model temperature prompt_text) retries
        delay_seconds 0 []) = Generated ''ERROR: Max retries.''"
      by (auto simp: generate_content_def split: option.splits if_splits)
    then show ?thesis by (rule retry_loop_generated)
  qed
  with not_max show ?thesis by blast
qed

theorem generate_content_never_max_retries_witness:
  "fst (generate_content ''prompt'' ''claude-3-7-sonnet-20250219'' () 3 5
     \<lparr>gemini_api_key = Some ''key'', openai_api_key = None, anthropic_api_key = Some ''key''\<rparr>
     \<lparr>setup_fault = None, invoke = (\<lambda>m t p k. Responded (Response (Some '''') None))\<rparr>)
     \<noteq> MaxRetries
   \<and> generate_content ''prompt'' ''claude-3-7-sonnet-20250219'' () 3 5
     \<lparr>gemini_api_key = Some ''key'', openai_api_key = None, anthropic_api_key = Some ''key''\<rparr>
     \<lparr>setup_fault = None, invoke = (\<lambda>m t p k. Responded (Response (Some '''') None))\<rparr>
     = (AnthropicEmpty, [ApiCall 1, Sleep 5, ApiCall 2, Sleep 10, ApiCall 3])"
proof -
  have r: "(1::int) \<le> 3" by simp
  have e: "generate_content ''prompt'' ''claude-3-7-sonnet-20250219'' () 3 5
     \<lparr>gemini_api_key = Some ''key'', openai_api_key = None, anthropic_api_key = Some ''key''\<rparr>
     \<lparr>setup_fault = None, invoke = (\<lambda>m t p k. Responded (Response (Some '''') None))\<rparr>
     = (AnthropicEmpty, [ApiCall 1, Sleep 5, ApiCall 2, Sleep 10, ApiCall 3])"
    by (simp add: generate_content_def select_provider_def retry_loop.simps)
  show ?thesis
    by (rule conjI [OF generate_content_never_max_retries [OF r, THEN conjunct1] e])
qed

text \<open>
  Claim C10 as stated fails on the string: a vendor response whose text is
  \<open>"ERROR: Max retries."\<close> is returned as it is by the first attempt, with
  \<open>retries = 3\<close>.
\<close>

theorem generate_content_echoes_max_retries:
  "generate_content ''prompt'' ''gemini-2.5-pro-exp-03-25'' () 3 5 gemini_only_keys
     (answering_backend ''ERROR: Max retries.'')
   = (Generated ''ERROR: Max retries.'', [ApiCall 1])
   \<and> result_text (Generated ''ERROR: Max retries.'') = ''ERROR: Max retries.''"
  by (simp add: generate_content_def select_provider_def retry_loop.simps gemini_only_keys_def
      answering_backend_def strip_def is_space_def)

section \<open>Properties of the generation run\<close>

lemma map_of_dict_set:
  "map_of (dict_set k v d) k' = (if k' = k then Some v else map_of d k')"
  by (induction d) auto

text \<open>
  Claim C7. With a topic table of no rows, in either run mode, the run ends in the
  warning that there are no topics followed by \<open>st.stop()\<close>: no \<open>generate_content\<close>
  call is made, no event happens and no output row exists.
\<close>

theorem run_generation_no_rows:
  "snd (topics_df st) = [] \<Longrightarrow>
   run_generation st keys world
     = (Stopped ''No topics to process. Please upload a CSV or add topics in the editor.'', 0, [])"
  by (simp add: run_generation_def df_empty_def)

theorem run_generation_no_rows_witness:
  "run_generation (example_session []) gemini_only_keys (same_backend (answering_backend ''text''))
     = (Stopped ''No topics to process. Please upload a CSV or add topics in the editor.'', 0, [])"
proof -
  have "snd (topics_df (example_session [])) = []" by (simp add: example_session_def)
  then show ?thesis by (rule run_generation_no_rows)
qed

text \<open>
  Claim C9. One pass of the field loop does one of three things, for every field and
  every row. A field without a template (missing or empty) gets \<open>"ERROR: No Prompt"\<close>
  and no other key of the row changes, so nothing is audited, also when the field is
  \<open>main_text_html\<close>. A prompt that cannot be resolved ends the pass in the fault. A
  generated field stores the string that \<open>generate_content\<close> returned, whatever it is,
  error marker or text: for \<open>main_text_html\<close> the two link fields are then the audit of
  that same string, with no test of success, and no further key changes; for every
  other field no other key of the row changes, so the audit has not run.
\<close>

theorem audit_only_for_main_text_html:
  "(map_of (editable_prompts st) field_to_gen = None
      \<or> map_of (editable_prompts st) field_to_gen = Some []
    \<longrightarrow> (\<exists>row. gen_field st keys world tv pv sv field_to_gen (output_row, n, tr)
                   = Inr (row, n, tr)
            \<and> map_of row field_to_gen = Some (PStr ''ERROR: No Prompt'')
            \<and> (\<forall>k. k \<noteq> field_to_gen \<longrightarrow> map_of row k = map_of output_row k)))
   \<and> (map_of (editable_prompts st) field_to_gen = Some prompt_template
        \<and> prompt_template \<noteq> []
        \<and> fmt_prompt_cells prompt_template tv pv sv st = Inl e
      \<longrightarrow> gen_field st keys world tv pv sv field_to_gen (output_row, n, tr) = Inl (e, n, tr))
   \<and> (map_of (editable_prompts st) field_to_gen = Some prompt_template
        \<and> prompt_template \<noteq> []
        \<and> fmt_prompt_cells prompt_template tv pv sv st = Inr fmt
      \<longrightarrow> (let call = generate_content fmt (model_name st) (llm_temperature st) 3 5 keys
                         (world n);
               generated_val = result_text (fst call)
           in \<exists>row. gen_field st keys world tv pv sv field_to_gen (output_row, n, tr)
                       = Inr (row, n + 1, tr @ snd call)
                \<and> map_of row field_to_gen = Some (PStr generated_val)
                \<and> (if field_to_gen = ''main_text_html''
                    then map_of row ''found_internal_links_in_html''
                           = Some (PStr (found_links_in_html (approved_internal_links st)
                                           generated_val))
                       \<and> map_of row ''found_external_links_in_html''
                           = Some (PStr (found_links_in_html (approved_external_links st)
                                           generated_val))
                       \<and> (\<forall>k. k \<noteq> ''main_text_html''
                              \<and> k \<noteq> ''found_internal_links_in_html''
                              \<and> k \<noteq> ''found_external_links_in_html''
                             \<longrightarrow> map_of row k = map_of output_row k)
                    else \<forall>k. k \<noteq> field_to_gen \<longrightarrow> map_of row k = map_of output_row k)))"
proof (intro conjI impI)
  assume "map_of (editable_prompts st) field_to_gen = None
      \<or> map_of (editable_prompts st) field_to_gen = Some []"
  then show "\<exists>row. gen_field st keys world tv pv sv field_to_gen (output_row, n, tr)
                   = Inr (row, n, tr)
            \<and> map_of row field_to_gen = Some (PStr ''ERROR: No Prompt'')
            \<and> (\<forall>k. k \<noteq> field_to_gen \<longrightarrow> map_of row k = map_of output_row k)"
    by (auto simp: map_of_dict_set)
next
  assume "map_of (editable_prompts st) field_to_gen = Some prompt_template
        \<and> prompt_template \<noteq> []
        \<and> fmt_prompt_cells prompt_template tv pv sv st = Inl e"
  then show "gen_field st keys world tv pv sv field_to_gen (output_row, n, tr) = Inl (e, n, tr)"
    by simp
next
  assume "map_of (editable_prompts st) field_to_gen = Some prompt_template
        \<and> prompt_template \<noteq> []
        \<and> fmt_prompt_cells prompt_template tv pv sv st = Inr fmt"
  then show "let call = generate_content fmt (model_name st) (llm_temperature st) 3 5 keys
                         (world n);
               generated_val = result_text (fst call)
           in \<exists>row. gen_field st keys world tv pv sv field_to_gen (output_row, n, tr)
                       = Inr (row, n + 1, tr @ snd call)
                \<and> map_of row field_to_gen = Some (PStr generated_val)
                \<and> (if field_to_gen = ''main_text_html''
                    then map_of row ''found_internal_links_in_html''
                           = Some (PStr (found_links_in_html (approved_internal_links st)
                                           generated_val))
                       \<and> map_of row ''found_external_links_in_html''
                           = Some (PStr (found_links_in_html (approved_external_links st)
                                           generated_val))
                       \<and> (\<forall>k. k \<noteq> ''main_text_html''
                              \<and> k \<noteq> ''found_internal_links_in_html''
                              \<and> k \<noteq> ''found_external_links_in_html''
                             \<longrightarrow> map_of row k = map_of output_row k)
                    else \<forall>k. k \<noteq> field_to_gen \<longrightarrow> map_of row k = map_of output_row k)"
    by (simp add: Let_def map_of_dict_set)
qed

theorem audit_only_for_main_text_html_witness:
  "gen_field (example_session []) gemini_only_keys
      (same_backend (raising_backend ''no route to https://host''))
      (PStr ''t'') (PStr ''p'') (PStr ''s'') ''main_text_html'' ([], 0, [])
     = Inr ([(''main_text_html'', PStr ''ERROR: API call failed - no route to https://host''),
             (''found_internal_links_in_html'', PStr ''https | https''),
             (''found_external_links_in_html'', PStr ''https'')],
            1, [ApiCall 1, Sleep 5, ApiCall 2, Sleep 10, ApiCall 3])
   \<and> gen_field ((example_session [])\<lparr>editable_prompts := []\<rparr>) gemini_only_keys
      (same_backend (raising_backend ''no route to https://host''))
      (PStr ''t'') (PStr ''p'') (PStr ''s'') ''main_text_html'' ([], 0, [])
     = Inr ([(''main_text_html'', PStr ''ERROR: No Prompt'')], 0, [])"
proof -
  let ?st = "example_session []"
  let ?world = "same_backend (raising_backend ''no route to https://host'')"
  have t: "map_of (editable_prompts ?st) ''main_text_html'' = Some ''Body: [SECONDARY_KEYWORDS_LIST]''"
    by (simp add: example_session_def)
  have ne: "''Body: [SECONDARY_KEYWORDS_LIST]'' \<noteq> []" by simp
  have f: "fmt_prompt_cells ''Body: [SECONDARY_KEYWORDS_LIST]'' (PStr ''t'') (PStr ''p'') (PStr ''s'') ?st
             = Inr ''Body: s''"
    by (simp add: fmt_prompt_cells_def fmt_prompt_def)
  have g: "generate_content ''Body: s'' (model_name ?st) (llm_temperature ?st) 3 5
             gemini_only_keys (?world 0)
           = (ApiCallFailed ''no route to https://host'',
              [ApiCall 1, Sleep 5, ApiCall 2, Sleep 10, ApiCall 3])"
    by (simp add: generate_content_def select_provider_def retry_loop.simps
        gemini_only_keys_def raising_backend_def same_backend_def example_session_def)
  have a: "found_links_in_html (approved_internal_links ?st)
             ''ERROR: API call failed - no route to https://host'' = ''https | https''"
    by (simp add: found_links_in_html_def approved_urls_full_def approved_urls_step_def
        splitlines_def strip_def split_once_def is_space_def is_linebreak_def
        example_session_def)
  have b: "found_links_in_html (approved_external_links ?st)
             ''ERROR: API call failed - no route to https://host'' = ''https''"
    by (simp add: found_links_in_html_def approved_urls_full_def approved_urls_step_def
        splitlines_def strip_def split_once_def is_space_def is_linebreak_def
        example_session_def)
  note generated = audit_only_for_main_text_html
    [of ?st "''main_text_html''" gemini_only_keys ?world "PStr ''t''" "PStr ''p''" "PStr ''s''"
        "[]" 0 "[]" "''Body: [SECONDARY_KEYWORDS_LIST]''" _ "''Body: s''",
     THEN conjunct2, THEN conjunct2, THEN mp, OF conjI [OF t conjI [OF ne f]]]
  from generated obtain row where r: "gen_field ?st gemini_only_keys ?world
        (PStr ''t'') (PStr ''p'') (PStr ''s'') ''main_text_html'' ([], 0, [])
      = Inr (row, 1, [ApiCall 1, Sleep 5, ApiCall 2, Sleep 10, ApiCall 3])"
    unfolding Let_def g by auto
  have row: "row = [(''main_text_html'', PStr ''ERROR: API call failed - no route to https://host''),
             (''found_internal_links_in_html'', PStr ''https | https''),
             (''found_external_links_in_html'', PStr ''https'')]"
    using r t f g a b by (simp add: Let_def)
  have skipped: "gen_field (?st\<lparr>editable_prompts := []\<rparr>) gemini_only_keys ?world
      (PStr ''t'') (PStr ''p'') (PStr ''s'') ''main_text_html'' ([], 0, [])
     = Inr ([(''main_text_html'', PStr ''ERROR: No Prompt'')], 0, [])"
    by simp
  from r row skipped show ?thesis by simp
qed

text \<open>
  Claim C5. A run over \<open>N\<close> rows should give \<open>N\<close> output rows whatever fails. With a
  blank cell in the second of two rows (pandas reads it as NaN) the first
  \<open>str.replace\<close> of that row raises \<open>TypeError\<close>: the first row has been generated with
  six calls, and the run ends in the exception with no output row delivered.
\<close>

theorem run_generation_blank_cell:
  "run_generation
     (example_session
        [[PStr ''how to hire baristas'', PStr ''hire baristas'', PStr ''barista hiring process''],
         [PStr ''how to hire line cooks'', PStr ''hire line cooks'', PNaN]])
     gemini_only_keys (same_backend (answering_backend ''text''))
   = (Crashed TypeError, 6,
      [ApiCall 1, ApiCall 1, ApiCall 1, ApiCall 1, ApiCall 1, ApiCall 1])"
  by (simp add: run_generation_def df_empty_def example_session_def to_records_def
      dict_of_pairs_def dict_get_def generated_fields_def fmt_prompt_cells_def
      generate_content_def select_provider_def retry_loop.simps gemini_only_keys_def
      answering_backend_def same_backend_def Let_def)

text \<open>
  When all topic cells are strings the run does complete as claim C5 says: one output
  row per topic row, each holding a string under all six generated fields.
\<close>

lemma holds_text_dict_set_same: "holds_text (dict_set f (PStr s) row) f"
  by (simp add: holds_text_def map_of_dict_set)

lemma holds_text_dict_set_keep:
  "holds_text row g \<Longrightarrow> holds_text (dict_set f (PStr s) row) g"
  by (simp add: holds_text_def map_of_dict_set)

lemma gen_field_strings:
  assumes "as_str tv \<noteq> None" "as_str pv \<noteq> None" "as_str sv \<noteq> None"
  shows "\<exists>row' n' tr'. gen_field st keys world tv pv sv f (row, n, tr) = Inr (row', n', tr')
           \<and> holds_text row' f \<and> (\<forall>g. holds_text row g \<longrightarrow> holds_text row' g)"
proof -
  from assms obtain t p s where c: "as_str tv = Some t" "as_str pv = Some p" "as_str sv = Some s"
    by auto
  show ?thesis
  proof (cases "map_of (editable_prompts st) f")
    case None
    then show ?thesis by (simp add: holds_text_dict_set_same holds_text_dict_set_keep)
  next
    case (Some tpl)
    show ?thesis
    proof (cases "tpl = []")
      case True
      with Some show ?thesis by (simp add: holds_text_dict_set_same holds_text_dict_set_keep)
    next
      case False
      with Some c show ?thesis
        by (simp add: fmt_prompt_cells_def Let_def holds_text_dict_set_same
            holds_text_dict_set_keep)
    qed
  qed
qed

lemma gen_fields_strings:
  assumes "as_str tv \<noteq> None" "as_str pv \<noteq> None" "as_str sv \<noteq> None"
  shows "\<exists>row' n' tr'. gen_fields st keys world tv pv sv fs (row, n, tr) = Inr (row', n', tr')
           \<and> (\<forall>f \<in> set fs. holds_text row' f) \<and> (\<forall>g. holds_text row g \<longrightarrow> holds_text row' g)"
proof (induction fs arbitrary: row n tr)
  case Nil
  then show ?case by simp
next
  case (Cons f fs)
  from gen_field_strings [OF assms] obtain row1 n1 tr1 where
    s1: "gen_field st keys world tv pv sv f (row, n, tr) = Inr (row1, n1, tr1)"
    and h1: "holds_text row1 f" and k1: "\<forall>g. holds_text row g \<longrightarrow> holds_text row1 g"
    by blast
  from Cons.IH [of row1 n1 tr1] obtain row2 n2 tr2 where
    s2: "gen_fields st keys world tv pv sv fs (row1, n1, tr1) = Inr (row2, n2, tr2)"
    and h2: "\<forall>f \<in> set fs. holds_text row2 f" and k2: "\<forall>g. holds_text row1 g \<longrightarrow> holds_text row2 g"
    by blast
  from s1 s2 have "gen_fields st keys world tv pv sv (f # fs) (row, n, tr) = Inr (row2, n2, tr2)"
    by simp
  moreover from h1 h2 k2 have "\<forall>f' \<in> set (f # fs). holds_text row2 f'" by auto
  moreover from k1 k2 have "\<forall>g. holds_text row g \<longrightarrow> holds_text row2 g" by blast
  ultimately show ?case by blast
qed

lemma gen_row_strings:
  assumes "string_cells topic_row"
  shows "\<exists>row n' tr'. gen_row st keys world topic_row (acc, n, tr) = Inr (acc @ [row], n', tr')
           \<and> (\<forall>f \<in> set generated_fields. holds_text row f)"
proof -
  let ?tv = "dict_get topic_row ''topic_input'' (PStr ''N/A'')"
  let ?pv = "dict_get topic_row ''primary_keyword'' (PStr '''')"
  let ?sv = "dict_get topic_row ''secondary_keywords'' (PStr '''')"
  from assms have c: "as_str ?tv \<noteq> None" "as_str ?pv \<noteq> None" "as_str ?sv \<noteq> None"
    by (simp_all add: string_cells_def)
  from gen_fields_strings [OF c] obtain row n' tr' where
    "gen_fields st keys world ?tv ?pv ?sv generated_fields
       ([(''topic_input'', ?tv), (''primary_keyword'', ?pv), (''secondary_keywords'', ?sv)], n, tr)
     = Inr (row, n', tr')"
    and "\<forall>f \<in> set generated_fields. holds_text row f"
    by blast
  then show ?thesis by (simp add: Let_def)
qed

lemma gen_rows_strings:
  assumes "\<forall>r \<in> set topic_rows. string_cells r"
  shows "\<exists>new n' tr'. gen_rows st keys world topic_rows (acc, n, tr) = Inr (acc @ new, n', tr')
           \<and> length new = length topic_rows
           \<and> (\<forall>row \<in> set new. \<forall>f \<in> set generated_fields. holds_text row f)"
  using assms
proof (induction topic_rows arbitrary: acc n tr)
  case Nil
  then show ?case by simp
next
  case (Cons r rs)
  then have "string_cells r" by simp
  from gen_row_strings [OF this] obtain row n1 tr1 where
    s1: "gen_row st keys world r (acc, n, tr) = Inr (acc @ [row], n1, tr1)"
    and h1: "\<forall>f \<in> set generated_fields. holds_text row f"
    by blast
  from Cons.prems have "\<forall>r \<in> set rs. string_cells r" by simp
  from Cons.IH [OF this, of "acc @ [row]" n1 tr1] obtain new n2 tr2 where
    s2: "gen_rows st keys world rs (acc @ [row], n1, tr1) = Inr ((acc @ [row]) @ new, n2, tr2)"
    and l2: "length new = length rs"
    and h2: "\<forall>row \<in> set new. \<forall>f \<in> set generated_fields. holds_text row f"
    by blast
  from s1 s2 have "gen_rows st keys world (r # rs) (acc, n, tr) = Inr (acc @ (row # new), n2, tr2)"
    by simp
  moreover from l2 have "length (row # new) = length (r # rs)" by simp
  moreover from h1 h2 have "\<forall>row' \<in> set (row # new). \<forall>f \<in> set generated_fields. holds_text row' f"
    by simp
  ultimately show ?case by blast
qed

lemma run_generation_complete_on_strings:
  assumes "\<not> df_empty (topics_df st)"
    and "run_mode st \<noteq> ''first_only''"
    and "\<forall>r \<in> set (to_records (topics_df st)). string_cells r"
  shows "\<exists>rows n tr. run_generation st keys world = (Completed rows, n, tr)
           \<and> length rows = df_len (topics_df st)
           \<and> (\<forall>row \<in> set rows. \<forall>f \<in> set generated_fields. holds_text row f)"
proof -
  from gen_rows_strings [OF assms(3), of st keys world "[]" 0 "[]"] obtain new n tr where
    "gen_rows st keys world (to_records (topics_df st)) ([], 0, []) = Inr (new, n, tr)"
    and "length new = length (to_records (topics_df st))"
    and "\<forall>row \<in> set new. \<forall>f \<in> set generated_fields. holds_text row f"
    by auto
  with assms(1,2) show ?thesis
    by (simp add: run_generation_def Let_def to_records_def df_len_def)
qed

section \<open>Properties of saving and loading\<close>





















end
